theory Spec2Isabelle
  imports Main "HOL-Library.Word" "HOL-Library.Multiset" "HOL-Library.Monad_Syntax"
    "HOL-Library.AList"
begin

unbundle bit_operations_syntax

section \<open>Package chunker: frames, fragmentation and reassembly\<close>

text \<open>
  A shallow embedding of the Go sources of simulacra_txt. Byte slices are lists of
  8-bit words, the fixed-width header fields are words of their width, Go's \<open>int\<close>
  lengths and loop indices are natural numbers (none of them can overflow 64 bits in
  the functions below), and every \<open>fmt.Errorf\<close> site is one constructor of the
  error type, carrying the values that the message formats.
\<close>

type_synonym byte = "8 word"

subsection \<open>Constants\<close>

definition MAX_DNS_STRING_SIZE :: nat where
  "MAX_DNS_STRING_SIZE = 255"

definition SAFE_CHUNK_SIZE :: nat where
  "SAFE_CHUNK_SIZE = 250"

definition METADATA_OVERHEAD :: nat where
  "METADATA_OVERHEAD = 28"

definition PAYLOAD_PER_CHUNK_HEX :: nat where
  "PAYLOAD_PER_CHUNK_HEX = (SAFE_CHUNK_SIZE - METADATA_OVERHEAD) div 2"

text \<open>
  \<open>PAYLOAD_PER_CHUNK_B32 = int(math.Floor(float64(SAFE_CHUNK_SIZE-METADATA_OVERHEAD) / 1.6))\<close>:
  the quotient 222 / 1.6 is 138.75 (138.7499... with the binary value of 1.6), whose
  floor is written here in integer arithmetic.
\<close>

definition PAYLOAD_PER_CHUNK_B32 :: nat where
  "PAYLOAD_PER_CHUNK_B32 = ((SAFE_CHUNK_SIZE - METADATA_OVERHEAD) * 10) div 16"

definition ENCODE_HEX :: string where
  "ENCODE_HEX = ''hex''"

definition ENCODE_BASE32 :: string where
  "ENCODE_BASE32 = ''base32''"

definition CHUNK_MAGIC :: "32 word" where
  "CHUNK_MAGIC = 0x444E5343"

definition MaxUint16 :: nat where
  "MaxUint16 = 65535"

subsection \<open>Data model\<close>

record ChunkMetadata =
  Magic :: "32 word"
  MessageID :: "byte list"
  Sequence :: "16 word"
  TotalChunks :: "16 word"
  Checksum :: "32 word"
  Timestamp :: int
  PayloadSize :: "16 word"

record Chunk =
  Metadata :: ChunkMetadata
  Payload :: "byte list"
  Encoded :: string
  RecordName :: string

record Message =
  ID :: "byte list"
  Data :: "byte list"
  Chunks :: "Chunk list"
  Encoding_m :: string
  CreatedAt :: int
  Metadata_m :: "(string \<times> string) list"

record ChunkerConfig =
  Encoding :: string
  MaxChunkSize :: nat
  AddRedundancy :: bool
  Compression :: bool
  DNSNamePrefix :: string

datatype error =
    MessageTooLarge nat
  | NoChunksProvided
  | MixedMessages "byte list" "byte list"
  | InconsistentTotalChunks "16 word" "16 word"
  | IncompleteMessage "16 word list"
  | SequenceError nat
  | ChecksumFailed nat
  | DecodeFailed
  | ChunkTooSmall nat
  | InvalidMagic "32 word"

text \<open>
  The functions of the Go standard library that the chunker calls are not part of the
  repository. They are passed in as a record, so that every theorem below holds for
  whatever these functions compute; \<open>sort_Slice\<close> is constrained by the contract of
  \<open>sort.Slice\<close> (a permutation ordered by the comparison, not necessarily stable)
  where a theorem needs it.
\<close>

record stdlib =
  hex_EncodeToString :: "byte list \<Rightarrow> string"
  hex_DecodeString :: "string \<Rightarrow> byte list option"
  base32_EncodeToString :: "byte list \<Rightarrow> string"
  base32_DecodeString :: "string \<Rightarrow> byte list option"
  sort_Slice :: "(Chunk \<Rightarrow> Chunk \<Rightarrow> bool) \<Rightarrow> Chunk list \<Rightarrow> Chunk list"

subsection \<open>Checksum\<close>

text \<open>
  \<open>calculateChecksum\<close>: \<open>sum += uint32(b); sum = (sum << 1) | (sum >> 31)\<close> for each
  byte, on a \<open>uint32\<close> (the accumulator, \<open>sum\<close> in the source, is \<open>acc\<close> here).
\<close>

definition checksum_step :: "32 word \<Rightarrow> byte \<Rightarrow> 32 word" where
  "checksum_step acc b = (let s = acc + ucast b in push_bit 1 s OR drop_bit 31 s)"

definition calculateChecksum :: "byte list \<Rightarrow> 32 word" where
  "calculateChecksum data = foldl checksum_step 0 data"

text \<open>
  The reference definition in the words of the specification, on natural numbers with
  the arithmetic modulo \<open>2 ^ 32\<close> written out: add the byte, then rotate left by one
  bit within 32 bits (the top bit re-enters at the bottom).
\<close>

definition rotate_left_1_spec :: "nat \<Rightarrow> nat" where
  "rotate_left_1_spec s = (2 * s) mod 2 ^ 32 + s div 2 ^ 31"

fun checksum_spec :: "nat \<Rightarrow> nat list \<Rightarrow> nat" where
  "checksum_spec acc [] = acc"
| "checksum_spec acc (b # bs) = checksum_spec (rotate_left_1_spec ((acc + b) mod 2 ^ 32)) bs"

subsection \<open>Formatting and byte order\<close>

text \<open>
  \<open>fmt.Sprintf\<close> with the verbs \<open>%d\<close> and \<open>%03d\<close> (decimal digits, the latter padded
  with zeros on the left to a width of at least three), and the big-endian accessors
  of \<open>encoding/binary\<close>. A slice expression \<open>s[lo:hi]\<close> and an index into a slice
  panic when out of range; \<open>None\<close> stands for the panic.
\<close>

definition digit_char :: "nat \<Rightarrow> char" where
  "digit_char d = char_of (48 + d)"

function decimal :: "nat \<Rightarrow> string" where
  "decimal n = (if n < 10 then [digit_char n] else decimal (n div 10) @ [digit_char (n mod 10)])"
  by pat_completeness auto
termination
  by (relation "measure id") auto

declare decimal.simps [simp del]

definition fmt_d :: "int \<Rightarrow> string" where
  "fmt_d i = (if i < 0 then CHR ''-'' # decimal (nat (- i)) else decimal (nat i))"

definition fmt_03d :: "nat \<Rightarrow> string" where
  "fmt_03d n = replicate (3 - length (decimal n)) CHR ''0'' @ decimal n"

definition BigEndian_PutUint32 :: "32 word \<Rightarrow> byte list" where
  "BigEndian_PutUint32 v =
     [ucast (drop_bit 24 v), ucast (drop_bit 16 v), ucast (drop_bit 8 v), ucast v]"

definition BigEndian_PutUint16 :: "16 word \<Rightarrow> byte list" where
  "BigEndian_PutUint16 v = [ucast (drop_bit 8 v), ucast v]"

fun BigEndian_Uint32 :: "byte list \<Rightarrow> 32 word option" where
  "BigEndian_Uint32 (b0 # b1 # b2 # b3 # _) =
     Some (ucast b3 OR push_bit 8 (ucast b2) OR push_bit 16 (ucast b1) OR push_bit 24 (ucast b0))"
| "BigEndian_Uint32 _ = None"

fun BigEndian_Uint16 :: "byte list \<Rightarrow> 16 word option" where
  "BigEndian_Uint16 (b0 # b1 # _) = Some (ucast b1 OR push_bit 8 (ucast b0))"
| "BigEndian_Uint16 _ = None"

definition slice :: "'a list \<Rightarrow> nat \<Rightarrow> nat \<Rightarrow> 'a list option" where
  "slice xs lo hi =
     (if lo \<le> hi \<and> hi \<le> length xs then Some (take (hi - lo) (drop lo xs)) else None)"

subsection \<open>Building frames\<close>

text \<open>
  The \<open>Chunker\<close> is represented by its configuration; its statistics counters and the
  console output of \<open>ChunkMessage\<close> and \<open>ReassembleMessage\<close> do not flow into any
  returned value and are left out. Wall-clock readings are inputs, in nanoseconds:
  \<open>clock 0\<close> stamps the message and \<open>clock (Suc i)\<close> is the reading taken for chunk \<open>i\<close>. \<open>generateMessageID\<close> takes the
  first 16 bytes of the SHA-256 digest of the data followed by the decimal digits of
  the clock; the identifier it returns is an input of \<open>ChunkMessage\<close> as well.
\<close>

definition NewChunker :: "ChunkerConfig \<Rightarrow> ChunkerConfig" where
  "NewChunker config =
     (let c1 = (if Encoding config = [] then config\<lparr>Encoding := ENCODE_BASE32\<rparr> else config)
      in if MaxChunkSize c1 = 0 then c1\<lparr>MaxChunkSize := SAFE_CHUNK_SIZE\<rparr> else c1)"

definition calculatePayloadSize :: "ChunkerConfig \<Rightarrow> nat" where
  "calculatePayloadSize cfg =
     (if Encoding cfg = ENCODE_HEX then PAYLOAD_PER_CHUNK_HEX
      else if Encoding cfg = ENCODE_BASE32 then PAYLOAD_PER_CHUNK_B32
      else PAYLOAD_PER_CHUNK_HEX)"

text \<open>
  \<open>int(math.Ceil(float64(dataSize) / float64(payloadSize)))\<close>. The float quotient of
  two integers below \<open>2 ^ 53\<close> is correctly rounded and a non-integral quotient is at
  least \<open>1 / payloadSize\<close> away from an integer, so the rounded-up quotient is the
  integer ceiling whenever it is below \<open>2 ^ 45\<close>; above that it exceeds 65535 either
  way, which is all that \<open>ChunkMessage\<close> observes.
\<close>

definition calculateTotalChunks :: "nat \<Rightarrow> nat \<Rightarrow> nat" where
  "calculateTotalChunks dataSize payloadSize = (dataSize + payloadSize - 1) div payloadSize"

definition encodeChunk :: "stdlib \<Rightarrow> ChunkerConfig \<Rightarrow> ChunkMetadata \<Rightarrow> byte list \<Rightarrow> string" where
  "encodeChunk lib cfg metadata payload =
     (let metaBytes = BigEndian_PutUint32 (Magic metadata) @ MessageID metadata
            @ BigEndian_PutUint16 (Sequence metadata) @ BigEndian_PutUint16 (TotalChunks metadata)
            @ BigEndian_PutUint32 (Checksum metadata);
          fullChunk = metaBytes @ payload
      in if Encoding cfg = ENCODE_HEX then hex_EncodeToString lib fullChunk
         else if Encoding cfg = ENCODE_BASE32 then base32_EncodeToString lib fullChunk
         else hex_EncodeToString lib fullChunk)"

definition generateRecordName :: "stdlib \<Rightarrow> ChunkerConfig \<Rightarrow> ChunkMetadata \<Rightarrow> string" where
  "generateRecordName lib cfg metadata =
     (let msgIDShort = hex_EncodeToString lib (take 4 (MessageID metadata));
          name = ''chunk-'' @ fmt_03d (unat (Sequence metadata)) @ ''-'' @ msgIDShort
      in if DNSNamePrefix cfg \<noteq> [] then name @ ''.'' @ DNSNamePrefix cfg else name)"

definition createChunk ::
  "stdlib \<Rightarrow> ChunkerConfig \<Rightarrow> int \<Rightarrow> byte list \<Rightarrow> byte list \<Rightarrow> nat \<Rightarrow> 16 word \<Rightarrow> nat \<Rightarrow> Chunk option"
where
  "createChunk lib cfg unix data messageID sequence totalChunks payloadSize =
     (let start = sequence * payloadSize;
          end0 = start + payloadSize;
          end1 = (if end0 > length data then length data else end0)
      in case slice data start end1 of
           None \<Rightarrow> None
         | Some payload \<Rightarrow>
             (let metadata = \<lparr>Magic = CHUNK_MAGIC, MessageID = messageID,
                    Sequence = of_nat sequence, TotalChunks = totalChunks,
                    Checksum = calculateChecksum payload, Timestamp = unix,
                    PayloadSize = of_nat (length payload)\<rparr>
              in Some \<lparr>Metadata = metadata, Payload = payload,
                    Encoded = encodeChunk lib cfg metadata payload,
                    RecordName = generateRecordName lib cfg metadata\<rparr>))"

definition ChunkMessage ::
  "stdlib \<Rightarrow> ChunkerConfig \<Rightarrow> byte list \<Rightarrow> (nat \<Rightarrow> int) \<Rightarrow> byte list \<Rightarrow> (error + Message) option"
where
  "ChunkMessage lib cfg messageID clock data =
     (let payloadSize = calculatePayloadSize cfg;
          totalChunks = calculateTotalChunks (length data) payloadSize
      in if totalChunks > MaxUint16 then Some (Inl (MessageTooLarge totalChunks))
         else case those (map (\<lambda>i. createChunk lib cfg (clock (Suc i) div 1000000000) data
                                  messageID i (of_nat totalChunks) payloadSize)
                            [0..<totalChunks]) of
                None \<Rightarrow> None
              | Some cs \<Rightarrow>
                  Some (Inr \<lparr>ID = messageID, Data = data, Chunks = cs,
                         Encoding_m = Encoding cfg, CreatedAt = clock 0, Metadata_m = []\<rparr>))"

subsection \<open>Reassembly\<close>

fun same_message :: "byte list \<Rightarrow> 16 word \<Rightarrow> Chunk list \<Rightarrow> error option" where
  "same_message messageID totalExpected [] = None"
| "same_message messageID totalExpected (chunk # rest) =
     (if MessageID (Metadata chunk) \<noteq> messageID
        then Some (MixedMessages (take 8 messageID) (take 8 (MessageID (Metadata chunk))))
      else if TotalChunks (Metadata chunk) \<noteq> totalExpected
        then Some (InconsistentTotalChunks totalExpected (TotalChunks (Metadata chunk)))
      else same_message messageID totalExpected rest)"

definition findMissingChunks :: "Chunk list \<Rightarrow> 16 word \<Rightarrow> 16 word list" where
  "findMissingChunks cs totalChunks =
     filter (\<lambda>i. i \<notin> set (map (\<lambda>c. Sequence (Metadata c)) cs))
       (map of_nat [0..<unat totalChunks])"

definition less_Sequence :: "Chunk \<Rightarrow> Chunk \<Rightarrow> bool" where
  "less_Sequence a b = (Sequence (Metadata a) < Sequence (Metadata b))"

fun verify_chunks :: "nat \<Rightarrow> Chunk list \<Rightarrow> error option" where
  "verify_chunks i [] = None"
| "verify_chunks i (chunk # rest) =
     (if Sequence (Metadata chunk) \<noteq> of_nat i then Some (SequenceError i)
      else if calculateChecksum (Payload chunk) \<noteq> Checksum (Metadata chunk)
        then Some (ChecksumFailed i)
      else verify_chunks (Suc i) rest)"

definition ReassembleMessage :: "stdlib \<Rightarrow> Chunk list \<Rightarrow> error + byte list" where
  "ReassembleMessage lib cs =
     (case cs of
        [] \<Rightarrow> Inl NoChunksProvided
      | first # _ \<Rightarrow>
          (let messageID = MessageID (Metadata first);
               totalExpected = TotalChunks (Metadata first)
           in case same_message messageID totalExpected cs of
                Some e \<Rightarrow> Inl e
              | None \<Rightarrow>
                  if length cs \<noteq> unat totalExpected
                    then Inl (IncompleteMessage (findMissingChunks cs totalExpected))
                  else (let sorted = sort_Slice lib less_Sequence cs
                        in case verify_chunks 0 sorted of
                             Some e \<Rightarrow> Inl e
                           | None \<Rightarrow> Inr (concat (map Payload sorted)))))"

text \<open>
  The contract of \<open>sort.Slice\<close> for the comparison used by \<open>ReassembleMessage\<close>: the
  result is a rearrangement of the input in which no element is followed by a smaller
  one. The order among chunks of equal sequence number is left open.
\<close>

definition sorts_by_Sequence :: "stdlib \<Rightarrow> bool" where
  "sorts_by_Sequence lib \<longleftrightarrow>
     (\<forall>cs. mset (sort_Slice lib less_Sequence cs) = mset cs
         \<and> sorted_wrt (\<lambda>a b. \<not> less_Sequence b a) (sort_Slice lib less_Sequence cs))"

subsection \<open>Parsing a frame\<close>

definition decodeText :: "stdlib \<Rightarrow> ChunkerConfig \<Rightarrow> string \<Rightarrow> byte list option" where
  "decodeText lib cfg encoded =
     (if Encoding cfg = ENCODE_HEX then hex_DecodeString lib encoded
      else if Encoding cfg = ENCODE_BASE32 then base32_DecodeString lib encoded
      else case hex_DecodeString lib encoded of
             Some rawData \<Rightarrow> Some rawData
           | None \<Rightarrow> base32_DecodeString lib encoded)"

definition parseHeader :: "byte list \<Rightarrow> string \<Rightarrow> (error + Chunk) option" where
  "parseHeader rawData encoded =
     do {
       magicBytes \<leftarrow> slice rawData 0 4;
       magic \<leftarrow> BigEndian_Uint32 magicBytes;
       if magic \<noteq> CHUNK_MAGIC then Some (Inl (InvalidMagic magic))
       else do {
         idBytes \<leftarrow> slice rawData 4 20;
         seqBytes \<leftarrow> slice rawData 20 22;
         sequence \<leftarrow> BigEndian_Uint16 seqBytes;
         totalBytes \<leftarrow> slice rawData 22 24;
         totalChunks \<leftarrow> BigEndian_Uint16 totalBytes;
         sumBytes \<leftarrow> slice rawData 24 28;
         checksum \<leftarrow> BigEndian_Uint32 sumBytes;
         payload \<leftarrow> slice rawData 28 (length rawData);
         Some (Inr \<lparr>Metadata = \<lparr>Magic = magic, MessageID = idBytes, Sequence = sequence,
                       TotalChunks = totalChunks, Checksum = checksum, Timestamp = 0,
                       PayloadSize = of_nat (length payload)\<rparr>,
                     Payload = payload, Encoded = encoded, RecordName = []\<rparr>)
       }
     }"

definition DecodeChunk :: "stdlib \<Rightarrow> ChunkerConfig \<Rightarrow> string \<Rightarrow> (error + Chunk) option" where
  "DecodeChunk lib cfg encoded =
     (case decodeText lib cfg encoded of
        None \<Rightarrow> Some (Inl DecodeFailed)
      | Some rawData \<Rightarrow>
          if length rawData < METADATA_OVERHEAD
            then Some (Inl (ChunkTooSmall (length rawData)))
          else parseHeader rawData encoded)"

subsection \<open>Frame sets\<close>

text \<open>
  The shape of the chunk list that fragmentation produces for one message: \<open>n\<close> frames
  in order of sequence number, all with the same identifier and total, each with the
  checksum of its payload.
\<close>

definition is_frame_set :: "byte list \<Rightarrow> nat \<Rightarrow> Chunk list \<Rightarrow> bool" where
  "is_frame_set mid n cs \<longleftrightarrow>
     length cs = n \<and>
     (\<forall>i<n. Sequence (Metadata (cs ! i)) = of_nat i
          \<and> TotalChunks (Metadata (cs ! i)) = of_nat n
          \<and> MessageID (Metadata (cs ! i)) = mid
          \<and> Checksum (Metadata (cs ! i)) = calculateChecksum (Payload (cs ! i)))"

subsection \<open>An instance of the library functions\<close>

text \<open>
  For evaluating the model on concrete inputs: lower-case hexadecimal as
  \<open>encoding/hex\<close> writes it (the decoder accepts both cases and rejects odd lengths
  and foreign characters), base32 with the RFC 4648 alphabet and no padding, and an
  insertion sort. The theorems are proved for every instance of \<open>stdlib\<close>; none of
  them refers to this one except to show that its hypotheses can be met.
\<close>

definition hex_digit :: "nat \<Rightarrow> char" where
  "hex_digit d = ''0123456789abcdef'' ! d"

definition hex_encode :: "byte list \<Rightarrow> string" where
  "hex_encode bs = concat (map (\<lambda>b. [hex_digit (unat b div 16), hex_digit (unat b mod 16)]) bs)"

definition fromHexChar :: "char \<Rightarrow> nat option" where
  "fromHexChar c =
     (let n = (of_char c :: nat)
      in if 48 \<le> n \<and> n \<le> 57 then Some (n - 48)
         else if 97 \<le> n \<and> n \<le> 102 then Some (n - 97 + 10)
         else if 65 \<le> n \<and> n \<le> 70 then Some (n - 65 + 10)
         else None)"

fun hex_decode :: "string \<Rightarrow> byte list option" where
  "hex_decode [] = Some []"
| "hex_decode [c] = None"
| "hex_decode (c # d # rest) =
     (case (fromHexChar c, fromHexChar d, hex_decode rest) of
        (Some hi, Some lo, Some bs) \<Rightarrow> Some (of_nat (hi * 16 + lo) # bs)
      | _ \<Rightarrow> None)"

definition byte_bits :: "byte \<Rightarrow> bool list" where
  "byte_bits b = map (bit b) [7, 6, 5, 4, 3, 2, 1, 0]"

definition bits_value :: "bool list \<Rightarrow> nat" where
  "bits_value bits = foldl (\<lambda>acc b. 2 * acc + (if b then 1 else 0)) 0 bits"

fun groups_of_5 :: "bool list \<Rightarrow> bool list list" where
  "groups_of_5 [] = []"
| "groups_of_5 (a # b # c # d # e # rest) = [a, b, c, d, e] # groups_of_5 rest"
| "groups_of_5 bits = [take 5 (bits @ replicate 4 False)]"

fun groups_of_8 :: "bool list \<Rightarrow> bool list list" where
  "groups_of_8 (a # b # c # d # e # f # g # h # rest) = [a, b, c, d, e, f, g, h] # groups_of_8 rest"
| "groups_of_8 bits = []"

definition base32_digit :: "nat \<Rightarrow> char" where
  "base32_digit d = ''ABCDEFGHIJKLMNOPQRSTUVWXYZ234567'' ! d"

definition base32_encode :: "byte list \<Rightarrow> string" where
  "base32_encode bs =
     map (\<lambda>g. base32_digit (bits_value g)) (groups_of_5 (concat (map byte_bits bs)))"

definition fromBase32Char :: "char \<Rightarrow> nat option" where
  "fromBase32Char c =
     (let n = (of_char c :: nat)
      in if 65 \<le> n \<and> n \<le> 90 then Some (n - 65)
         else if 50 \<le> n \<and> n \<le> 55 then Some (n - 50 + 26)
         else None)"

definition value_bits :: "nat \<Rightarrow> bool list" where
  "value_bits v = map (\<lambda>i. odd (v div 2 ^ i)) [4, 3, 2, 1, 0]"

definition base32_decode :: "string \<Rightarrow> byte list option" where
  "base32_decode s =
     (case those (map fromBase32Char s) of
        None \<Rightarrow> None
      | Some vs \<Rightarrow> Some (map (\<lambda>g. of_nat (bits_value g)) (groups_of_8 (concat (map value_bits vs)))))"

fun insert_chunk :: "(Chunk \<Rightarrow> Chunk \<Rightarrow> bool) \<Rightarrow> Chunk \<Rightarrow> Chunk list \<Rightarrow> Chunk list" where
  "insert_chunk lt x [] = [x]"
| "insert_chunk lt x (y # ys) = (if lt x y then x # y # ys else y # insert_chunk lt x ys)"

definition insertion_sort :: "(Chunk \<Rightarrow> Chunk \<Rightarrow> bool) \<Rightarrow> Chunk list \<Rightarrow> Chunk list" where
  "insertion_sort lt cs = foldr (insert_chunk lt) cs []"

definition reference_lib :: stdlib where
  "reference_lib =
     \<lparr>hex_EncodeToString = hex_encode, hex_DecodeString = hex_decode,
      base32_EncodeToString = base32_encode, base32_DecodeString = base32_decode,
      sort_Slice = insertion_sort\<rparr>"

subsection \<open>Fragmenting and reassembling in sequence\<close>

text \<open>
  The demonstration program chunks a buffer and, unless chunking failed, hands
  \<open>msg.Chunks\<close> to \<open>ReassembleMessage\<close>. \<open>chunk_then_reassemble\<close> is that
  sequence; \<open>chunk_drop_reassemble\<close> takes the frame at position \<open>k\<close> out of the
  slice before reassembling.
\<close>

definition chunk_then_reassemble ::
  "stdlib \<Rightarrow> ChunkerConfig \<Rightarrow> byte list \<Rightarrow> (nat \<Rightarrow> int) \<Rightarrow> byte list \<Rightarrow> (error + byte list) option"
where
  "chunk_then_reassemble lib cfg messageID clock data =
     (case ChunkMessage lib cfg messageID clock data of
        None \<Rightarrow> None
      | Some (Inl e) \<Rightarrow> Some (Inl e)
      | Some (Inr msg) \<Rightarrow> Some (ReassembleMessage lib (Chunks msg)))"

definition remove_frame :: "nat \<Rightarrow> Chunk list \<Rightarrow> Chunk list" where
  "remove_frame k cs = take k cs @ drop (Suc k) cs"

definition chunk_drop_reassemble ::
  "stdlib \<Rightarrow> ChunkerConfig \<Rightarrow> byte list \<Rightarrow> (nat \<Rightarrow> int) \<Rightarrow> byte list \<Rightarrow> nat
     \<Rightarrow> (error + byte list) option"
where
  "chunk_drop_reassemble lib cfg messageID clock data k =
     (case ChunkMessage lib cfg messageID clock data of
        None \<Rightarrow> None
      | Some (Inl e) \<Rightarrow> Some (Inl e)
      | Some (Inr msg) \<Rightarrow> Some (ReassembleMessage lib (remove_frame k (Chunks msg))))"

text \<open>Concrete inputs for the examples.\<close>

definition hex_config :: ChunkerConfig where
  "hex_config = NewChunker \<lparr>Encoding = ENCODE_HEX, MaxChunkSize = 0, AddRedundancy = False,
     Compression = False, DNSNamePrefix = ''covert.example.com''\<rparr>"

definition base32_config :: ChunkerConfig where
  "base32_config = NewChunker \<lparr>Encoding = [], MaxChunkSize = 0, AddRedundancy = False,
     Compression = False, DNSNamePrefix = []\<rparr>"

definition example_id :: "byte list" where
  "example_id = [0xa3, 0xf2, 0xb1, 0x07, 0x10, 0x11, 0x12, 0x13, 0x14, 0x15, 0x16, 0x17,
     0x18, 0x19, 0x1a, 0x1b]"

definition example_clock :: "nat \<Rightarrow> int" where
  "example_clock n = 1700000000000000000 + int n"

definition frame_seq0_of_2 :: Chunk where
  "frame_seq0_of_2 =
     \<lparr>Metadata = \<lparr>Magic = CHUNK_MAGIC, MessageID = example_id, Sequence = 0, TotalChunks = 2,
        Checksum = calculateChecksum [1], Timestamp = 1700000000, PayloadSize = 1\<rparr>,
      Payload = [1], Encoded = [], RecordName = []\<rparr>"

section \<open>Package dnsserver: the message store and the queue manager\<close>

text \<open>
  A Go map is represented by an association list read as a finite map: a lookup takes
  the first binding of the key (\<open>map_of\<close>), an assignment replaces it or appends a new
  one (\<open>AList.update\<close>), \<open>delete\<close> removes the key (\<open>AList.delete\<close>), and a \<open>range\<close>
  loop visits every key once with the value that a lookup gives. Go leaves the order of
  a \<open>range\<close> over a map open; the model visits the keys in list order, and the
  statements below speak of membership only. A pointer to a stored message is
  represented by the message's key in the store. Times are integers (nanoseconds), the
  reading of \<open>time.Now()\<close> is an argument, and the counters are unbounded integers
  (Go's 64-bit \<open>int\<close> cannot overflow by counting messages). The read/write lock only
  serialises the calls, which is what a function from state to state expresses.
\<close>

definition go_range :: "('k \<times> 'v) list \<Rightarrow> ('k \<times> 'v) list" where
  "go_range m =
     concat (map (\<lambda>k. case map_of m k of None \<Rightarrow> [] | Some v \<Rightarrow> [(k, v)]) (remdups (map fst m)))"

definition go_len :: "('k \<times> 'v) list \<Rightarrow> nat" where
  "go_len m = length (remdups (map fst m))"

datatype MessageState = StateNew | StateDelivered | StateConsumed | StateExpired

record ConsumerRecord =
  ClientIP :: string
  FetchedAt :: int
  ChunksFetched :: "string list"

record Message_d =
  ID_d :: string
  Chunks_d :: "(string \<times> string) list"
  TotalChunks_d :: int
  Manifest :: string
  CreatedAt_d :: int
  State :: MessageState
  Consumers :: "ConsumerRecord list"

record StorageStats =
  TotalMessages :: int
  NewMessages :: int
  Delivered :: int
  Consumed :: int
  TotalChunks_s :: int
  MemoryUsage :: int

record MemoryStorage =
  messages :: "(string \<times> Message_d) list"
  chunks :: "(string \<times> string) list"
  index :: "(string \<times> string list) list"
  stats :: StorageStats

datatype storage_error =
    MessageAlreadyExists string
  | MessageNotFound string
  | ChunkNotFound string
  | WriteTempFileFailed
  | RenameTempFileFailed

subsection \<open>In-memory storage\<close>

definition NewMemoryStorage :: MemoryStorage where
  "NewMemoryStorage =
     \<lparr>messages = [], chunks = [], index = [],
      stats = \<lparr>TotalMessages = 0, NewMessages = 0, Delivered = 0, Consumed = 0,
               TotalChunks_s = 0, MemoryUsage = 0\<rparr>\<rparr>"

definition StoreMessage ::
  "int \<Rightarrow> Message_d \<Rightarrow> MemoryStorage \<Rightarrow> storage_error option \<times> MemoryStorage"
where
  "StoreMessage now msg ms =
     (if map_of (messages ms) (ID_d msg) \<noteq> None
        then (Some (MessageAlreadyExists (ID_d msg)), ms)
      else
        (let msg1 = msg\<lparr>State := StateNew, CreatedAt_d := now\<rparr>;
             st = stats ms
         in (None,
             ms\<lparr>messages := AList.update (ID_d msg) msg1 (messages ms),
                chunks := foldl (\<lambda>c (chunkName, chunkData). AList.update chunkName chunkData c)
                            (chunks ms) (go_range (Chunks_d msg)),
                stats := st\<lparr>TotalMessages := TotalMessages st + 1,
                            NewMessages := NewMessages st + 1,
                            TotalChunks_s := TotalChunks_s st + int (go_len (Chunks_d msg))\<rparr>\<rparr>)))"

definition GetMessage :: "string \<Rightarrow> MemoryStorage \<Rightarrow> storage_error + Message_d" where
  "GetMessage msgID ms =
     (case map_of (messages ms) msgID of
        None \<Rightarrow> Inl (MessageNotFound msgID)
      | Some msg \<Rightarrow> Inr msg)"

definition GetChunk :: "string \<Rightarrow> string \<Rightarrow> MemoryStorage \<Rightarrow> storage_error + string" where
  "GetChunk msgID chunkName ms =
     (case map_of (chunks ms) chunkName of
        None \<Rightarrow> Inl (ChunkNotFound chunkName)
      | Some chunkData \<Rightarrow> Inr chunkData)"

definition GetNewMessages :: "string \<Rightarrow> MemoryStorage \<Rightarrow> Message_d list" where
  "GetNewMessages clientID ms =
     (let seenMsgIDs = (case map_of (index ms) clientID of None \<Rightarrow> [] | Some msgIDs \<Rightarrow> msgIDs)
      in map snd (filter (\<lambda>(msgID, msg). msgID \<notin> set seenMsgIDs \<and> State msg = StateNew)
                    (go_range (messages ms))))"

definition MarkAsDelivered ::
  "int \<Rightarrow> string \<Rightarrow> string \<Rightarrow> MemoryStorage \<Rightarrow> storage_error option \<times> MemoryStorage"
where
  "MarkAsDelivered now msgID clientID ms =
     (case map_of (messages ms) msgID of
        None \<Rightarrow> (Some (MessageNotFound msgID), ms)
      | Some msg \<Rightarrow>
          (let st = stats ms;
               (msg1, st1) =
                 (if State msg = StateNew
                    then (msg\<lparr>State := StateDelivered\<rparr>,
                          st\<lparr>NewMessages := NewMessages st - 1, Delivered := Delivered st + 1\<rparr>)
                  else (msg, st));
               msg2 = msg1\<lparr>Consumers := Consumers msg1
                         @ [\<lparr>ClientIP = clientID, FetchedAt = now, ChunksFetched = []\<rparr>]\<rparr>;
               seen = (case map_of (index ms) clientID of None \<Rightarrow> [] | Some msgIDs \<Rightarrow> msgIDs)
           in (None,
               ms\<lparr>messages := AList.update msgID msg2 (messages ms),
                  index := AList.update clientID (seen @ [msgID]) (index ms),
                  stats := st1\<rparr>)))"

definition MarkAsConsumed ::
  "string \<Rightarrow> string \<Rightarrow> MemoryStorage \<Rightarrow> storage_error option \<times> MemoryStorage"
where
  "MarkAsConsumed msgID clientID ms =
     (case map_of (messages ms) msgID of
        None \<Rightarrow> (Some (MessageNotFound msgID), ms)
      | Some msg \<Rightarrow>
          (if State msg \<noteq> StateConsumed
             then (None,
                   ms\<lparr>messages := AList.update msgID (msg\<lparr>State := StateConsumed\<rparr>) (messages ms),
                      stats := (stats ms)\<lparr>Consumed := Consumed (stats ms) + 1\<rparr>\<rparr>)
           else (None, ms)))"

definition ListMessages :: "MemoryStorage \<Rightarrow> Message_d list" where
  "ListMessages ms = map snd (go_range (messages ms))"

definition clean_step ::
  "int \<Rightarrow> int \<times> MemoryStorage \<Rightarrow> string \<times> Message_d \<Rightarrow> int \<times> MemoryStorage"
where
  "clean_step cutoff acc entry =
     (case (acc, entry) of
        ((removed, ms), (msgID, msg)) \<Rightarrow>
          if CreatedAt_d msg < cutoff
            then (removed + 1,
                  ms\<lparr>chunks := foldl (\<lambda>c chunkName. AList.delete chunkName c) (chunks ms)
                                (map fst (go_range (Chunks_d msg))),
                     messages := AList.delete msgID (messages ms),
                     stats := (stats ms)\<lparr>TotalMessages := TotalMessages (stats ms) - 1,
                                TotalChunks_s := TotalChunks_s (stats ms)
                                                   - int (go_len (Chunks_d msg))\<rparr>\<rparr>)
          else (removed, ms))"

definition CleanExpired :: "int \<Rightarrow> int \<Rightarrow> MemoryStorage \<Rightarrow> int \<times> MemoryStorage" where
  "CleanExpired now ttl ms = foldl (clean_step (now - ttl)) (0, ms) (go_range (messages ms))"

definition GetStats :: "MemoryStorage \<Rightarrow> StorageStats" where
  "GetStats ms = stats ms"

subsection \<open>File-backed storage\<close>

text \<open>
  \<open>FileStorage\<close> embeds \<open>*MemoryStorage\<close> and declares \<open>StoreMessage\<close>, \<open>Save\<close> and
  \<open>Load\<close>; every other method of the \<open>Storage\<close> interface is the promoted method of
  the embedded store. The file at \<open>dataFile\<close> is part of the state: \<open>None\<close> while it
  does not exist, otherwise the document last renamed into place. Marshalling is the
  identity on the three fields written. Whether \<open>os.WriteFile\<close> and \<open>os.Rename\<close>
  succeed is an input.
\<close>

record Snapshot =
  Messages_j :: "(string \<times> Message_d) list"
  Index_j :: "(string \<times> string list) list"
  Stats_j :: StorageStats

record FileStorage =
  memory :: MemoryStorage
  dataFile :: "Snapshot option"

datatype io_outcome = IoSucceeds | WriteFileFails | RenameFails

definition snapshot_of :: "MemoryStorage \<Rightarrow> Snapshot" where
  "snapshot_of ms = \<lparr>Messages_j = messages ms, Index_j = index ms, Stats_j = stats ms\<rparr>"

definition Save :: "io_outcome \<Rightarrow> FileStorage \<Rightarrow> storage_error option \<times> FileStorage" where
  "Save io fs =
     (case io of
        WriteFileFails \<Rightarrow> (Some WriteTempFileFailed, fs)
      | RenameFails \<Rightarrow> (Some RenameTempFileFailed, fs)
      | IoSucceeds \<Rightarrow> (None, fs\<lparr>dataFile := Some (snapshot_of (memory fs))\<rparr>))"

definition FileStorage_StoreMessage ::
  "io_outcome \<Rightarrow> int \<Rightarrow> Message_d \<Rightarrow> FileStorage \<Rightarrow> storage_error option \<times> FileStorage"
where
  "FileStorage_StoreMessage io now msg fs =
     (case StoreMessage now msg (memory fs) of
        (Some err, _) \<Rightarrow> (Some err, fs)
      | (None, ms) \<Rightarrow> Save io (fs\<lparr>memory := ms\<rparr>))"

definition FileStorage_MarkAsDelivered ::
  "int \<Rightarrow> string \<Rightarrow> string \<Rightarrow> FileStorage \<Rightarrow> storage_error option \<times> FileStorage"
where
  "FileStorage_MarkAsDelivered now msgID clientID fs =
     (case MarkAsDelivered now msgID clientID (memory fs) of
        (err, ms) \<Rightarrow> (err, fs\<lparr>memory := ms\<rparr>))"

definition FileStorage_MarkAsConsumed ::
  "string \<Rightarrow> string \<Rightarrow> FileStorage \<Rightarrow> storage_error option \<times> FileStorage"
where
  "FileStorage_MarkAsConsumed msgID clientID fs =
     (case MarkAsConsumed msgID clientID (memory fs) of
        (err, ms) \<Rightarrow> (err, fs\<lparr>memory := ms\<rparr>))"

definition FileStorage_CleanExpired :: "int \<Rightarrow> int \<Rightarrow> FileStorage \<Rightarrow> int \<times> FileStorage" where
  "FileStorage_CleanExpired now ttl fs =
     (case CleanExpired now ttl (memory fs) of
        (removed, ms) \<Rightarrow> (removed, fs\<lparr>memory := ms\<rparr>))"

subsection \<open>Queue manager\<close>

text \<open>
  The queue manager calls the store through the \<open>Storage\<close> interface; it is modelled
  over the in-memory store, whose methods the file-backed store promotes for every call
  made here except \<open>StoreMessage\<close>. \<open>ConsumeMessages\<close> returns the messages as
  \<open>GetNewMessages\<close> found them and discards the result of \<open>MarkAsDelivered\<close>, as the
  source does.
\<close>

definition PublishMessage ::
  "int \<Rightarrow> string \<Rightarrow> (string \<times> string) list \<Rightarrow> string \<Rightarrow> MemoryStorage
     \<Rightarrow> storage_error option \<times> MemoryStorage"
where
  "PublishMessage now msgID chunkMap manifest ms =
     StoreMessage now
       \<lparr>ID_d = msgID, Chunks_d = chunkMap, TotalChunks_d = int (go_len chunkMap),
        Manifest = manifest, CreatedAt_d = now, State = StateNew, Consumers = []\<rparr> ms"

definition ConsumeMessages :: "int \<Rightarrow> string \<Rightarrow> MemoryStorage \<Rightarrow> Message_d list \<times> MemoryStorage" where
  "ConsumeMessages now clientID ms =
     (let msgs = GetNewMessages clientID ms
      in (msgs, foldl (\<lambda>s msg. snd (MarkAsDelivered now (ID_d msg) clientID s)) ms msgs))"

definition AcknowledgeMessage ::
  "string \<Rightarrow> string \<Rightarrow> MemoryStorage \<Rightarrow> storage_error option \<times> MemoryStorage"
where
  "AcknowledgeMessage msgID clientID ms = MarkAsConsumed msgID clientID ms"

subsection \<open>Sequences of store operations\<close>

datatype store_op =
    Op_StoreMessage int Message_d
  | Op_GetNewMessages string
  | Op_MarkAsDelivered int string string
  | Op_MarkAsConsumed string string
  | Op_CleanExpired int int

fun apply_op :: "store_op \<Rightarrow> MemoryStorage \<Rightarrow> MemoryStorage" where
  "apply_op (Op_StoreMessage now msg) ms = snd (StoreMessage now msg ms)"
| "apply_op (Op_GetNewMessages clientID) ms = ms"
| "apply_op (Op_MarkAsDelivered now msgID clientID) ms = snd (MarkAsDelivered now msgID clientID ms)"
| "apply_op (Op_MarkAsConsumed msgID clientID) ms = snd (MarkAsConsumed msgID clientID ms)"
| "apply_op (Op_CleanExpired now ttl) ms = snd (CleanExpired now ttl ms)"

fun run_ops :: "store_op list \<Rightarrow> MemoryStorage \<Rightarrow> MemoryStorage" where
  "run_ops [] ms = ms"
| "run_ops (op # ops) ms = run_ops ops (apply_op op ms)"

definition state_of :: "MemoryStorage \<Rightarrow> string \<Rightarrow> MessageState option" where
  "state_of ms msgID = map_option State (map_of (messages ms) msgID)"

definition consumers_of :: "MemoryStorage \<Rightarrow> string \<Rightarrow> string list" where
  "consumers_of ms msgID =
     (case map_of (messages ms) msgID of
        None \<Rightarrow> []
      | Some msg \<Rightarrow> map ClientIP (Consumers msg))"

section \<open>Properties of the checksum\<close>

lemma shifts_disjoint:
  "push_bit 1 s OR drop_bit 31 s = push_bit 1 s + drop_bit 31 (s :: 32 word)"
proof (rule disjunctive_add_eq_or [symmetric], rule bit_eqI)
  fix n
  have "\<not> (bit (push_bit 1 s) n \<and> bit (drop_bit 31 s) n)"
  proof
    assume h: "bit (push_bit 1 s) n \<and> bit (drop_bit 31 s) n"
    then have "bit s (31 + n)" by (simp add: bit_drop_bit_eq)
    then have "31 + n < 32" using bit_imp_le_length [of s "31 + n"] by simp
    then have "n = 0" by simp
    with h show False by (simp add: bit_0)
  qed
  then show "bit (push_bit 1 s AND drop_bit 31 s) n = bit (0 :: 32 word) n"
    by (simp add: bit_and_iff)
qed

lemma rotate_bound:
  fixes x :: nat
  assumes "x < 4294967296"
  shows "(2 * x) mod 4294967296 + x div 2147483648 < 4294967296"
proof (cases "x < 2147483648")
  case True
  then show ?thesis by simp
next
  case False
  then have d: "x div 2147483648 = 1" using assms by simp
  have "(2 * x) mod 4294967296 = 2 * x - 4294967296"
    using False assms by (simp add: mod_if)
  then show ?thesis using d assms by simp
qed

lemma unat_rotate:
  "unat (push_bit 1 s OR drop_bit 31 (s :: 32 word)) = rotate_left_1_spec (unat s)"
proof -
  have a: "unat (push_bit 1 s) = (2 * unat s) mod 2 ^ 32"
    by (simp add: unat_word_ariths mult.commute)
  have b: "unat (drop_bit 31 s) = unat s div 2 ^ 31"
    by (subst unat_drop_bit_eq) (simp only: drop_bit_eq_div)
  have "unat s < 4294967296" using unsigned_less [of s] by simp
  then have c: "(2 * unat s) mod 2 ^ 32 + unat s div 2 ^ 31 < 2 ^ 32"
    using rotate_bound [of "unat s"] by simp
  show ?thesis unfolding shifts_disjoint rotate_left_1_spec_def
    using c by (simp only: unat_word_ariths a b) simp
qed

lemma unat_checksum_step:
  "unat (checksum_step acc b) = rotate_left_1_spec ((unat acc + unat b) mod 2 ^ 32)"
proof -
  have "unat b < 2 ^ 8"
    using unsigned_less [of b, where ?'a = nat] by simp
  then have "unat b < 2 ^ 32"
    by simp
  then have "unat (ucast b :: 32 word) = unat b"
    by (simp add: unsigned_ucast_eq take_bit_nat_eq_self)
  then have "unat (acc + ucast b) = (unat acc + unat b) mod 2 ^ 32"
    by (simp add: unat_word_ariths)
  then show ?thesis
    unfolding checksum_step_def Let_def by (simp only: unat_rotate)
qed

lemma foldl_checksum_spec:
  "unat (foldl checksum_step acc data) = checksum_spec (unat acc) (map unat data)"
  by (induction data arbitrary: acc) (simp_all add: unat_checksum_step)

text \<open>
  C6. For every byte sequence, the checksum computed by \<open>calculateChecksum\<close> equals
  the reference definition: start from 0; for each byte in order add it to the sum and
  rotate the sum left by one bit within 32 bits, all arithmetic modulo \<open>2 ^ 32\<close>.
\<close>

theorem calculateChecksum_refines_spec:
  "unat (calculateChecksum data) = checksum_spec 0 (map unat data)"
  using foldl_checksum_spec [of 0 data] by (simp add: calculateChecksum_def)

section \<open>Fragmentation and reassembly\<close>

subsection \<open>Arithmetic of the chunk count\<close>

lemma those_map_Some:
  "(\<forall>x \<in> set xs. f x = Some (g x)) \<Longrightarrow> those (map f xs) = Some (map g xs)"
  by (induction xs) simp_all

lemma chunk_start_in_range:
  assumes "i < calculateTotalChunks n ps"
  shows "i * ps < n"
proof -
  have ps: "0 < ps" using assms by (cases ps) (simp_all add: calculateTotalChunks_def)
  have "Suc i \<le> (n + ps - 1) div ps" using assms by (simp add: calculateTotalChunks_def)
  then have "Suc i * ps \<le> n + ps - 1" using ps by (simp add: less_eq_div_iff_mult_less_eq)
  then show ?thesis using ps by simp
qed

lemma total_covers:
  assumes "0 < ps"
  shows "n \<le> calculateTotalChunks n ps * ps"
proof -
  define m where "m = n + ps - 1"
  have "m mod ps < ps" using assms by simp
  moreover have "m div ps * ps + m mod ps = m" by simp
  ultimately have "m < m div ps * ps + ps" by linarith
  then show ?thesis using assms by (simp add: calculateTotalChunks_def m_def)
qed

lemma concat_pieces:
  "concat (map (\<lambda>i. take ps (drop (i * ps) data)) [0..<n]) = take (n * ps) data"
proof (induction n)
  case 0
  show ?case by simp
next
  case (Suc n)
  have "take (n * ps + ps) data = take (n * ps) data @ take ps (drop (n * ps) data)"
    by (rule take_add)
  then show ?case using Suc by (simp add: add.commute)
qed

lemma total_positive: "0 < n \<Longrightarrow> 0 < ps \<Longrightarrow> 0 < calculateTotalChunks n ps"
  by (simp add: calculateTotalChunks_def div_greater_zero_iff)

lemma total_bound: "0 < ps \<Longrightarrow> n \<le> k * ps \<Longrightarrow> calculateTotalChunks n ps \<le> k"
proof -
  assume ps: "0 < ps" and n: "n \<le> k * ps"
  have "n + ps - 1 < (k + 1) * ps" using ps n by simp
  then have "(n + ps - 1) div ps < k + 1" using ps
    by (simp add: div_less_iff_less_mult)
  then show ?thesis by (simp add: calculateTotalChunks_def)
qed

lemma payload_size_positive: "0 < calculatePayloadSize cfg"
  by (simp add: calculatePayloadSize_def PAYLOAD_PER_CHUNK_HEX_def PAYLOAD_PER_CHUNK_B32_def
      SAFE_CHUNK_SIZE_def METADATA_OVERHEAD_def)

lemma payload_size_values:
  "calculatePayloadSize cfg = (if Encoding cfg = ''base32'' then 138 else 111)"
  by (simp add: calculatePayloadSize_def PAYLOAD_PER_CHUNK_HEX_def PAYLOAD_PER_CHUNK_B32_def
      SAFE_CHUNK_SIZE_def METADATA_OVERHEAD_def ENCODE_HEX_def ENCODE_BASE32_def)

lemma unat_of_nat16: "n < 65536 \<Longrightarrow> unat (of_nat n :: 16 word) = n"
  by (simp add: unat_of_nat)

lemma same_message_None_iff:
  "same_message mid tot cs = None \<longleftrightarrow>
     (\<forall>c \<in> set cs. MessageID (Metadata c) = mid \<and> TotalChunks (Metadata c) = tot)"
  by (induction cs) auto

lemma verify_chunks_None_iff:
  "verify_chunks k cs = None \<longleftrightarrow>
     (\<forall>i<length cs. Sequence (Metadata (cs ! i)) = of_nat (k + i)
        \<and> calculateChecksum (Payload (cs ! i)) = Checksum (Metadata (cs ! i)))"
proof (induction cs arbitrary: k)
  case Nil
  show ?case by simp
next
  case (Cons c cs)
  show ?case
    by (auto simp add: Cons.IH nth_Cons less_Suc_eq_0_disj split: nat.splits)
qed

lemma verify_chunks_error_kind:
  "verify_chunks k cs = Some e \<Longrightarrow> \<exists>i. e = SequenceError i \<or> e = ChecksumFailed i"
  by (induction cs arbitrary: k) (auto split: if_splits)

lemma sort_Slice_strictly_sorted:
  assumes lib: "sorts_by_Sequence lib" and cs: "sorted_wrt less_Sequence cs"
  shows "sort_Slice lib less_Sequence cs = cs"
proof -
  define key where "key = (\<lambda>c :: Chunk. Sequence (Metadata c))"
  define ys where "ys = sort_Slice lib less_Sequence cs"
  have m: "mset ys = mset cs"
    and s: "sorted_wrt (\<lambda>a b. \<not> less_Sequence b a) ys"
    using lib by (simp_all add: sorts_by_Sequence_def ys_def)
  have "sorted_wrt (<) (map key cs)"
    using cs by (simp add: sorted_wrt_map key_def less_Sequence_def [abs_def])
  then have sc: "sorted (map key cs)" and dc: "distinct (map key cs)"
    by (simp_all add: strict_sorted_iff)
  have sy: "sorted (map key ys)"
    using s by (simp add: sorted_wrt_map key_def less_Sequence_def [abs_def] not_less)
  have mk: "mset (map key ys) = mset (map key cs)"
    using m by simp
  have dy: "distinct (map key ys)"
    using mset_eq_imp_distinct_iff [OF mk] dc by simp
  have "set (map key ys) = set (map key cs)"
    using mk by (rule mset_eq_setD)
  then have eq: "map key ys = map key cs"
    using sorted_distinct_set_unique [OF sy dy sc dc] by simp
  have "set ys = set cs" using m by (rule mset_eq_setD)
  moreover have "inj_on key (set cs)" using dc by (simp add: distinct_map)
  ultimately have "inj_on key (set ys \<union> set cs)" by simp
  then show ?thesis using map_inj_on [OF eq] by (simp add: ys_def)
qed

lemma frame_set_sorted:
  assumes "is_frame_set mid n cs" and "n \<le> 65535"
  shows "sorted_wrt less_Sequence cs"
  unfolding sorted_wrt_iff_nth_less
proof (intro allI impI)
  fix i j assume "i < j" and "j < length cs"
  then have "i < n" "j < n" "i < 65536" "j < 65536"
    using assms by (auto simp add: is_frame_set_def)
  then show "less_Sequence (cs ! i) (cs ! j)"
    using assms \<open>i < j\<close>
    by (simp add: is_frame_set_def less_Sequence_def word_less_nat_alt unat_of_nat16)
qed

lemma reassemble_frame_set:
  assumes lib: "sorts_by_Sequence lib" and fs: "is_frame_set mid n cs"
    and n: "0 < n" "n \<le> 65535"
  shows "ReassembleMessage lib cs = Inr (concat (map Payload cs))"
proof -
  obtain c rest where c: "cs = c # rest"
    using fs n by (cases cs) (auto simp add: is_frame_set_def)
  have all: "\<forall>x \<in> set cs. MessageID (Metadata x) = mid \<and> TotalChunks (Metadata x) = of_nat n"
    using fs by (auto simp add: is_frame_set_def in_set_conv_nth)
  then have first: "MessageID (Metadata c) = mid" "TotalChunks (Metadata c) = of_nat n"
    by (simp_all add: c)
  have sm: "same_message mid (of_nat n) cs = None"
    using all by (simp add: same_message_None_iff)
  have len: "length cs = unat (of_nat n :: 16 word)"
    using fs n by (simp add: is_frame_set_def unat_of_nat16)
  have srt: "sort_Slice lib less_Sequence cs = cs"
    using sort_Slice_strictly_sorted [OF lib frame_set_sorted [OF fs n(2)]] .
  have ver: "verify_chunks 0 cs = None"
    using fs by (simp add: verify_chunks_None_iff is_frame_set_def)
  show ?thesis
    using first sm len srt ver unfolding ReassembleMessage_def c by (simp add: Let_def)
qed


lemma createChunk_in_range:
  assumes "i * ps < length data"
  shows "\<exists>c. createChunk lib cfg u data mid i tot ps = Some c
           \<and> Payload c = take ps (drop (i * ps) data)
           \<and> Sequence (Metadata c) = of_nat i
           \<and> TotalChunks (Metadata c) = tot
           \<and> MessageID (Metadata c) = mid
           \<and> Checksum (Metadata c) = calculateChecksum (Payload c)"
  using assms by (auto simp add: createChunk_def slice_def Let_def)

lemma ChunkMessage_frame_set:
  assumes "calculateTotalChunks (length data) (calculatePayloadSize cfg) \<le> 65535"
  shows "\<exists>m. ChunkMessage lib cfg mid clock data = Some (Inr m)
           \<and> is_frame_set mid (calculateTotalChunks (length data) (calculatePayloadSize cfg)) (Chunks m)
           \<and> map Payload (Chunks m) =
               map (\<lambda>i. take (calculatePayloadSize cfg) (drop (i * calculatePayloadSize cfg) data))
                 [0..<calculateTotalChunks (length data) (calculatePayloadSize cfg)]"
proof -
  define ps where "ps = calculatePayloadSize cfg"
  define n where "n = calculateTotalChunks (length data) ps"
  define f where "f = (\<lambda>i. createChunk lib cfg (clock (Suc i) div 1000000000) data mid i (of_nat n) ps)"
  define g where "g = (\<lambda>i. the (f i))"
  have props: "f i = Some (g i) \<and> Payload (g i) = take ps (drop (i * ps) data)
           \<and> Sequence (Metadata (g i)) = of_nat i
           \<and> TotalChunks (Metadata (g i)) = of_nat n
           \<and> MessageID (Metadata (g i)) = mid
           \<and> Checksum (Metadata (g i)) = calculateChecksum (Payload (g i))" if "i < n" for i
  proof -
    have "i * ps < length data" using that chunk_start_in_range by (simp add: n_def)
    from createChunk_in_range [OF this, of lib cfg "clock (Suc i) div 1000000000" mid "of_nat n"]
    show ?thesis by (auto simp add: f_def g_def)
  qed
  then have "those (map f [0..<n]) = Some (map g [0..<n])"
    by (intro those_map_Some) simp
  then have cm: "ChunkMessage lib cfg mid clock data =
      Some (Inr \<lparr>ID = mid, Data = data, Chunks = map g [0..<n],
                 Encoding_m = Encoding cfg, CreatedAt = clock 0, Metadata_m = []\<rparr>)"
    using assms by (simp add: ChunkMessage_def Let_def MaxUint16_def ps_def [symmetric]
        n_def [symmetric] f_def [symmetric])
  have "is_frame_set mid n (map g [0..<n])"
    using props by (simp add: is_frame_set_def)
  moreover have "map Payload (map g [0..<n]) = map (\<lambda>i. take ps (drop (i * ps) data)) [0..<n]"
    using props by simp
  ultimately show ?thesis using cm by (simp add: n_def ps_def)
qed

lemma ChunkMessage_then_Reassemble:
  assumes "sorts_by_Sequence lib"
    and "data \<noteq> []"
    and "length data \<le> 65535 * calculatePayloadSize cfg"
  shows "\<exists>m. ChunkMessage lib cfg mid clock data = Some (Inr m)
           \<and> ReassembleMessage lib (Chunks m) = Inr data"
proof -
  define ps where "ps = calculatePayloadSize cfg"
  define n where "n = calculateTotalChunks (length data) ps"
  have ps: "0 < ps" by (simp add: ps_def payload_size_positive)
  have n: "0 < n" "n \<le> 65535"
    using assms(2,3) ps total_positive [of "length data" ps] total_bound [of ps "length data" 65535]
    by (simp_all add: n_def ps_def)
  obtain m where m: "ChunkMessage lib cfg mid clock data = Some (Inr m)"
    and fs: "is_frame_set mid n (Chunks m)"
    and pl: "map Payload (Chunks m) = map (\<lambda>i. take ps (drop (i * ps) data)) [0..<n]"
    using ChunkMessage_frame_set [of data cfg lib mid clock] n(2) by (auto simp add: n_def ps_def)
  have "concat (map Payload (Chunks m)) = take (n * ps) data"
    by (simp only: pl concat_pieces)
  also have "\<dots> = data"
    using total_covers [OF ps, of "length data"] by (simp add: n_def)
  finally have "ReassembleMessage lib (Chunks m) = Inr data"
    using reassemble_frame_set [OF assms(1) fs n] by simp
  then show ?thesis using m by simp
qed

subsection \<open>A frame missing\<close>

lemma filter_single:
  "distinct xs \<Longrightarrow> x \<in> set xs \<Longrightarrow> (\<forall>y \<in> set xs. P y \<longleftrightarrow> y = x) \<Longrightarrow> filter P xs = [x]"
proof (induction xs)
  case Nil
  then show ?case by simp
next
  case (Cons y ys)
  show ?case
  proof (cases "y = x")
    case True
    then have "x \<notin> set ys" using Cons.prems(1) by simp
    then have "filter P ys = []" using Cons.prems(3) by (auto simp add: filter_empty_conv)
    then show ?thesis using True Cons.prems(3) by simp
  next
    case False
    then show ?thesis using Cons by auto
  qed
qed

lemma of_nat16_inj: "i < 65536 \<Longrightarrow> j < 65536 \<Longrightarrow> (of_nat i :: 16 word) = of_nat j \<longleftrightarrow> i = j"
  by (metis unat_of_nat16)

lemma frame_set_keys:
  assumes "is_frame_set mid n cs"
  shows "map (\<lambda>c. Sequence (Metadata c)) cs = map of_nat [0..<n]"
  using assms by (auto simp add: is_frame_set_def list_eq_iff_nth_eq)

lemma missing_one_frame:
  assumes fs: "is_frame_set mid n cs" and n: "2 \<le> n" "n \<le> 65535" and k: "k < n"
    and rem: "mset remaining = mset cs - {#cs ! k#}"
  shows "ReassembleMessage lib remaining = Inl (IncompleteMessage [of_nat k])"
proof -
  define key where "key = (\<lambda>c :: Chunk. Sequence (Metadata c))"
  have len: "length cs = n" using fs by (simp add: is_frame_set_def)
  have keys: "map key cs = map of_nat [0..<n]"
    using frame_set_keys [OF fs] by (simp add: key_def)
  have dk: "distinct (map key cs)"
    unfolding keys using n by (auto simp add: distinct_map inj_on_def of_nat16_inj)
  then have dcs: "distinct cs" by (simp add: distinct_map)
  have mem: "cs ! k \<in># mset cs" using k len by simp
  have size: "length remaining = n - 1"
    using size_Diff_singleton [OF mem] rem len by (metis size_mset)
  have set_rem: "set remaining = set cs - {cs ! k}"
  proof -
    have "mset remaining = mset (remove1 (cs ! k) cs)" using rem by simp
    then have "set remaining = set (remove1 (cs ! k) cs)" by (rule mset_eq_setD)
    then show ?thesis using dcs by simp
  qed
  obtain c rest where c: "remaining = c # rest"
    using size n by (cases remaining) auto
  have all: "\<forall>x \<in> set cs. MessageID (Metadata x) = mid \<and> TotalChunks (Metadata x) = of_nat n"
    using fs by (auto simp add: is_frame_set_def in_set_conv_nth)
  then have all_rem: "\<forall>x \<in> set remaining. MessageID (Metadata x) = mid \<and> TotalChunks (Metadata x) = of_nat n"
    using set_rem by simp
  then have first: "MessageID (Metadata c) = mid" "TotalChunks (Metadata c) = of_nat n"
    by (simp_all add: c)
  have sm: "same_message mid (of_nat n) remaining = None"
    using all_rem by (simp add: same_message_None_iff)
  have un: "unat (of_nat n :: 16 word) = n" using n by (simp add: unat_of_nat16)
  have ne: "length remaining \<noteq> unat (of_nat n :: 16 word)" using size n un by simp
  have keyk: "key (cs ! k) = of_nat k" using fs k by (simp add: is_frame_set_def key_def)
  have present: "key ` set remaining = of_nat ` ({0..<n} - {k})"
  proof -
    have "inj_on key (set cs)" using dk by (simp add: distinct_map)
    then have "key ` (set cs - {cs ! k}) = key ` set cs - {key (cs ! k)}"
      using k len by (simp add: inj_on_image_set_diff [where C = "set cs"])
    also have "key ` set cs = of_nat ` {0..<n}"
      using keys by (metis set_map set_upt)
    also have "of_nat ` {0..<n} - {key (cs ! k)} = of_nat ` ({0..<n} - {k})"
      unfolding keyk using n k
      by (auto simp add: of_nat16_inj)
    finally show ?thesis using set_rem by simp
  qed
  have miss: "findMissingChunks remaining (of_nat n) = [of_nat k]"
    unfolding findMissingChunks_def un
  proof (rule filter_single)
    show "distinct (map of_nat [0..<n] :: 16 word list)"
      using dk keys by simp
    show "(of_nat k :: 16 word) \<in> set (map of_nat [0..<n])" using k by simp
    show "\<forall>y \<in> set (map of_nat [0..<n]).
        (y \<notin> set (map (\<lambda>c. Sequence (Metadata c)) remaining)) = (y = (of_nat k :: 16 word))"
      using present n k unfolding key_def set_map
      by (auto simp add: of_nat16_inj)
  qed
  show ?thesis
    using first sm ne miss unfolding ReassembleMessage_def c by (simp add: Let_def)
qed

subsection \<open>The library instance sorts\<close>

lemma insert_chunk_mset: "mset (insert_chunk lt x ys) = add_mset x (mset ys)"
  by (induction ys) simp_all

lemma insertion_sort_mset: "mset (insertion_sort lt cs) = mset cs"
  by (induction cs) (simp_all add: insertion_sort_def insert_chunk_mset)

lemma insert_chunk_set: "set (insert_chunk lt x ys) = insert x (set ys)"
  by (induction ys) auto

lemma insert_chunk_sorted:
  "sorted_wrt (\<lambda>a b. \<not> less_Sequence b a) ys \<Longrightarrow>
   sorted_wrt (\<lambda>a b. \<not> less_Sequence b a) (insert_chunk less_Sequence x ys)"
  by (induction ys) (auto simp add: insert_chunk_set less_Sequence_def)

lemma insertion_sort_sorted:
  "sorted_wrt (\<lambda>a b. \<not> less_Sequence b a) (insertion_sort less_Sequence cs)"
  by (induction cs) (simp_all add: insertion_sort_def insert_chunk_sorted)

lemma reference_lib_sorts: "sorts_by_Sequence reference_lib"
  by (simp add: sorts_by_Sequence_def reference_lib_def insertion_sort_mset insertion_sort_sorted)

text \<open>
  C1 (as amended). For every non-empty byte buffer that needs at most 65535 frames
  (at most \<open>65535 * payloadSize\<close> bytes) and every configured encoding (hex, base32,
  or any other string, which falls back to the hex sizing), fragmenting the buffer and
  reassembling \<open>msg.Chunks\<close> returns the buffer, with no panic and no error on the
  way. The library sort may be any function that meets the contract of \<open>sort.Slice\<close>.
\<close>

theorem roundtrip_nonempty:
  assumes "sorts_by_Sequence lib"
    and "data \<noteq> []"
    and "length data \<le> 65535 * calculatePayloadSize cfg"
  shows "chunk_then_reassemble lib cfg messageID clock data = Some (Inr data)"
  using ChunkMessage_then_Reassemble [OF assms, of messageID clock]
  by (auto simp add: chunk_then_reassemble_def)

theorem roundtrip_nonempty_witness:
  "chunk_then_reassemble reference_lib hex_config example_id example_clock [0x41, 0x42, 0x43]
     = Some (Inr [0x41, 0x42, 0x43])
   \<and> chunk_then_reassemble reference_lib base32_config example_id example_clock [0x41, 0x42, 0x43]
     = Some (Inr [0x41, 0x42, 0x43])"
  using roundtrip_nonempty [OF reference_lib_sorts, of "[0x41, 0x42, 0x43]" hex_config example_id example_clock]
    roundtrip_nonempty [OF reference_lib_sorts, of "[0x41, 0x42, 0x43]" base32_config example_id example_clock]
  by (simp add: payload_size_values)

text \<open>
  C1 as stated quantifies over every byte buffer. For the empty buffer
  \<open>calculateTotalChunks\<close> is 0, \<open>ChunkMessage\<close> returns a message without chunks, and
  \<open>ReassembleMessage\<close> rejects the empty slice with "no chunks provided".
\<close>

theorem roundtrip_empty_counterexample:
  "chunk_then_reassemble reference_lib hex_config example_id example_clock [] = Some (Inl NoChunksProvided)"
  by (simp add: chunk_then_reassemble_def ChunkMessage_def Let_def calculateTotalChunks_def
      payload_size_values MaxUint16_def ReassembleMessage_def)

lemma ChunkMessage_Inr_frame_set:
  assumes "ChunkMessage lib cfg mid clock data = Some (Inr m)"
  shows "length (Chunks m) \<le> 65535 \<and> is_frame_set mid (length (Chunks m)) (Chunks m)"
proof -
  define n where "n = calculateTotalChunks (length data) (calculatePayloadSize cfg)"
  have n: "n \<le> 65535"
    using assms by (auto simp add: ChunkMessage_def Let_def MaxUint16_def n_def split: if_splits)
  then obtain m' where "ChunkMessage lib cfg mid clock data = Some (Inr m')"
    and "is_frame_set mid n (Chunks m')"
    using ChunkMessage_frame_set [of data cfg lib mid clock] by (auto simp add: n_def)
  then have "is_frame_set mid n (Chunks m)" using assms by simp
  moreover from this have "length (Chunks m) = n" by (simp add: is_frame_set_def)
  ultimately show ?thesis using n by simp
qed

lemma mset_remove_frame:
  "k < length cs \<Longrightarrow> mset (remove_frame k cs) = mset cs - {#cs ! k#}"
proof -
  assume k: "k < length cs"
  have "mset cs = mset (take k cs @ cs ! k # drop (Suc k) cs)"
    using id_take_nth_drop [OF k] by simp
  then show ?thesis by (simp add: remove_frame_def)
qed

text \<open>
  C4 (as amended). For every frame set of at least two frames produced by
  fragmentation and every single frame removed from it, \<open>ReassembleMessage\<close> on the
  remaining frames, in any order, fails with the incomplete-message error whose list
  of missing sequence numbers is exactly the removed frame's sequence number.
\<close>

theorem missing_frame_is_named:
  assumes "ChunkMessage lib cfg messageID clock data = Some (Inr msg)"
    and "2 \<le> length (Chunks msg)"
    and "k < length (Chunks msg)"
    and "mset remaining = mset (Chunks msg) - {#Chunks msg ! k#}"
  shows "ReassembleMessage lib remaining
           = Inl (IncompleteMessage [Sequence (Metadata (Chunks msg ! k))])"
proof -
  from ChunkMessage_Inr_frame_set [OF assms(1)]
  have n: "length (Chunks msg) \<le> 65535"
    and fs: "is_frame_set messageID (length (Chunks msg)) (Chunks msg)" by simp_all
  have "Sequence (Metadata (Chunks msg ! k)) = of_nat k"
    using fs assms(3) by (simp add: is_frame_set_def)
  then show ?thesis
    using missing_one_frame [OF fs assms(2) n assms(3) assms(4), of lib] by simp
qed

theorem missing_frame_is_named_witness:
  "chunk_drop_reassemble reference_lib hex_config example_id example_clock (replicate 112 0x41) 1
     = Some (Inl (IncompleteMessage [1]))"
proof -
  have c: "calculatePayloadSize hex_config = 111"
    by (simp add: payload_size_values hex_config_def NewChunker_def ENCODE_HEX_def Let_def)
  obtain m where m: "ChunkMessage reference_lib hex_config example_id example_clock (replicate 112 0x41) = Some (Inr m)"
    and fs: "is_frame_set example_id (calculateTotalChunks 112 111) (Chunks m)"
    using ChunkMessage_frame_set [of "replicate 112 0x41" hex_config reference_lib example_id example_clock]
    by (auto simp add: c calculateTotalChunks_def)
  have len: "length (Chunks m) = 2"
    using fs by (simp add: is_frame_set_def calculateTotalChunks_def)
  have s: "Sequence (Metadata (Chunks m ! 1)) = 1"
    using fs by (simp add: is_frame_set_def calculateTotalChunks_def)
  have "ReassembleMessage reference_lib (remove_frame 1 (Chunks m))
      = Inl (IncompleteMessage [Sequence (Metadata (Chunks m ! 1))])"
    using missing_frame_is_named [OF m, of 1 "remove_frame 1 (Chunks m)"] len
    by (simp add: mset_remove_frame)
  then show ?thesis using m s by (simp add: chunk_drop_reassemble_def)
qed

text \<open>
  C4 as stated covers frame sets of a single frame: removing that frame leaves an empty
  slice, which \<open>ReassembleMessage\<close> rejects with "no chunks provided" before it looks
  for missing chunks.
\<close>

theorem single_frame_removed_counterexample:
  "chunk_drop_reassemble reference_lib hex_config example_id example_clock [0x41] 0
     = Some (Inl NoChunksProvided)"
proof -
  have c: "calculatePayloadSize hex_config = 111"
    by (simp add: payload_size_values hex_config_def NewChunker_def ENCODE_HEX_def Let_def)
  obtain m where m: "ChunkMessage reference_lib hex_config example_id example_clock [0x41] = Some (Inr m)"
    and fs: "is_frame_set example_id (calculateTotalChunks 1 111) (Chunks m)"
    using ChunkMessage_frame_set [of "[0x41]" hex_config reference_lib example_id example_clock]
    by (auto simp add: c calculateTotalChunks_def)
  have "length (Chunks m) = 1"
    using fs by (simp add: is_frame_set_def calculateTotalChunks_def)
  then have "remove_frame 0 (Chunks m) = []" by (simp add: remove_frame_def)
  then show ?thesis using m by (simp add: chunk_drop_reassemble_def ReassembleMessage_def)
qed

subsection \<open>Sequence numbers that do not cover the range\<close>

lemma verify_chunks_None_keys:
  "verify_chunks k cs = None \<Longrightarrow>
     map (\<lambda>c. Sequence (Metadata c)) cs = map of_nat [k..<k + length cs]"
proof (induction cs arbitrary: k)
  case Nil
  show ?case by simp
next
  case (Cons c cs)
  from Cons.prems have hd: "Sequence (Metadata c) = of_nat k"
    and tl: "verify_chunks (Suc k) cs = None"
    by (simp_all split: if_splits)
  have "[k..<k + length (c # cs)] = k # [Suc k..<Suc k + length cs]"
    by (subst upt_rec) simp
  then show ?case using hd Cons.IH [OF tl] by simp
qed

text \<open>
  C5. For every list of frames that share one message id and one total and whose
  length equals that total: if the multiset of sequence numbers is not exactly
  \<open>{0, ..., total - 1}\<close>, \<open>ReassembleMessage\<close> produces no output; it fails in the
  verification loop, with "sequence error at position i" or, when a frame before the
  first misplaced one carries a wrong checksum, with "checksum failed for chunk i"
  (both are protocol errors in the taxonomy of the specification).
\<close>

theorem bad_sequence_set_rejected:
  assumes "sorts_by_Sequence lib"
    and "\<forall>c \<in> set cs. MessageID (Metadata c) = mid \<and> TotalChunks (Metadata c) = tot"
    and "length cs = unat tot"
    and "mset (map (\<lambda>c. Sequence (Metadata c)) cs) \<noteq> mset (map of_nat [0..<unat tot])"
  shows "\<exists>i. ReassembleMessage lib cs = Inl (SequenceError i)
           \<or> ReassembleMessage lib cs = Inl (ChecksumFailed i)"
proof -
  obtain c rest where c: "cs = c # rest"
    using assms(3,4) by (cases cs) auto
  have first: "MessageID (Metadata c) = mid" "TotalChunks (Metadata c) = tot"
    using assms(2) by (simp_all add: c)
  have sm: "same_message mid tot cs = None"
    using assms(2) by (simp add: same_message_None_iff)
  define ys where "ys = sort_Slice lib less_Sequence cs"
  have m: "mset ys = mset cs"
    using assms(1) by (simp add: sorts_by_Sequence_def ys_def)
  then have leny: "length ys = unat tot"
    using assms(3) by (metis size_mset)
  have "verify_chunks 0 ys \<noteq> None"
  proof
    assume "verify_chunks 0 ys = None"
    then have "map (\<lambda>c. Sequence (Metadata c)) ys = map of_nat [0..<unat tot]"
      using verify_chunks_None_keys [of 0 ys] leny by simp
    moreover have "mset (map (\<lambda>c. Sequence (Metadata c)) ys) = mset (map (\<lambda>c. Sequence (Metadata c)) cs)"
      using m by simp
    ultimately show False using assms(4) by simp
  qed
  then obtain e where e: "verify_chunks 0 ys = Some e" by auto
  then obtain i where "e = SequenceError i \<or> e = ChecksumFailed i"
    using verify_chunks_error_kind by blast
  moreover have "ReassembleMessage lib cs = Inl e"
    using first sm assms(3) e unfolding ReassembleMessage_def c ys_def by (simp add: Let_def)
  ultimately show ?thesis by auto
qed

theorem bad_sequence_set_rejected_witness:
  "ReassembleMessage reference_lib [frame_seq0_of_2, frame_seq0_of_2] = Inl (SequenceError 1)"
proof -
  have "\<exists>i. ReassembleMessage reference_lib [frame_seq0_of_2, frame_seq0_of_2] = Inl (SequenceError i)
           \<or> ReassembleMessage reference_lib [frame_seq0_of_2, frame_seq0_of_2] = Inl (ChecksumFailed i)"
  proof (rule bad_sequence_set_rejected [OF reference_lib_sorts, of _ example_id 2])
    show "\<forall>c \<in> set [frame_seq0_of_2, frame_seq0_of_2].
        MessageID (Metadata c) = example_id \<and> TotalChunks (Metadata c) = 2"
      by (simp add: frame_seq0_of_2_def)
    show "length [frame_seq0_of_2, frame_seq0_of_2] = unat (2 :: 16 word)"
      by simp
    have "map of_nat [0..<unat (2 :: 16 word)] = [0, 1 :: 16 word]"
      by (simp add: upt_rec)
    then show "mset (map (\<lambda>c. Sequence (Metadata c)) [frame_seq0_of_2, frame_seq0_of_2])
        \<noteq> mset (map of_nat [0..<unat (2 :: 16 word)])"
      by (simp add: frame_seq0_of_2_def)
  qed
  moreover have "ReassembleMessage reference_lib [frame_seq0_of_2, frame_seq0_of_2] = Inl (SequenceError 1)"
    by (simp add: ReassembleMessage_def Let_def reference_lib_def insertion_sort_def
        frame_seq0_of_2_def less_Sequence_def)
  ultimately show ?thesis by simp
qed

subsection \<open>Parsing never reads out of range\<close>

lemma byte_high_bits: "8 \<le> m \<Longrightarrow> \<not> bit (x :: byte) m"
  by (auto dest: bit_imp_le_length)

lemma put_get_uint32:
  "BigEndian_Uint32 [a, b, c, d] = Some w \<Longrightarrow> BigEndian_PutUint32 w = [a, b, c, d]"
  apply (simp add: BigEndian_PutUint32_def)
  apply (intro conjI bit_eqI)
  apply (auto simp add: bit_simps byte_high_bits)
  done

lemma magic_bytes: "BigEndian_PutUint32 CHUNK_MAGIC = [0x44, 0x4E, 0x53, 0x43]"
  by (simp add: BigEndian_PutUint32_def CHUNK_MAGIC_def)


lemma slice_in_range:
  "lo \<le> hi \<Longrightarrow> hi \<le> length xs \<Longrightarrow> slice xs lo hi = Some (take (hi - lo) (drop lo xs))"
  by (simp add: slice_def)

lemma list_of_length_4: "length bs = 4 \<Longrightarrow> \<exists>a b c d. bs = [a, b, c, d]"
  by (auto simp add: numeral_eq_Suc length_Suc_conv)

lemma list_of_length_2: "length bs = 2 \<Longrightarrow> \<exists>a b. bs = [a, b]"
  by (auto simp add: numeral_eq_Suc length_Suc_conv)

lemma uint32_of_4: "length bs = 4 \<Longrightarrow> \<exists>w. BigEndian_Uint32 bs = Some w"
  using list_of_length_4 [of bs] by auto

lemma uint16_of_2: "length bs = 2 \<Longrightarrow> \<exists>w. BigEndian_Uint16 bs = Some w"
  using list_of_length_2 [of bs] by auto

lemma uint32_is_magic:
  assumes "length bs = 4" and "BigEndian_Uint32 bs = Some CHUNK_MAGIC"
  shows "bs = [0x44, 0x4E, 0x53, 0x43]"
proof -
  obtain a b c d where bs: "bs = [a, b, c, d]" using list_of_length_4 [OF assms(1)] by auto
  then have "BigEndian_PutUint32 CHUNK_MAGIC = [a, b, c, d]"
    using assms(2) by (intro put_get_uint32) simp
  then show ?thesis using bs by (simp add: magic_bytes)
qed

lemma parseHeader_returns:
  assumes "28 \<le> length rawData"
  shows "\<exists>r. parseHeader rawData encoded = Some r"
proof -
  obtain magic where m: "BigEndian_Uint32 (take 4 rawData) = Some magic"
    using uint32_of_4 [of "take 4 rawData"] assms by auto
  obtain sq where s: "BigEndian_Uint16 (take 2 (drop 20 rawData)) = Some sq"
    using uint16_of_2 [of "take 2 (drop 20 rawData)"] assms by auto
  obtain tc where t: "BigEndian_Uint16 (take 2 (drop 22 rawData)) = Some tc"
    using uint16_of_2 [of "take 2 (drop 22 rawData)"] assms by auto
  obtain ck where k: "BigEndian_Uint32 (take 4 (drop 24 rawData)) = Some ck"
    using uint32_of_4 [of "take 4 (drop 24 rawData)"] assms by auto
  show ?thesis
    using assms m s t k by (simp add: parseHeader_def slice_in_range)
qed

lemma parseHeader_bad_magic:
  assumes "28 \<le> length rawData" and "take 4 rawData \<noteq> [0x44, 0x4E, 0x53, 0x43]"
  shows "\<exists>magic. magic \<noteq> CHUNK_MAGIC \<and> parseHeader rawData encoded = Some (Inl (InvalidMagic magic))"
proof -
  have len: "length (take 4 rawData) = 4" using assms(1) by simp
  obtain magic where m: "BigEndian_Uint32 (take 4 rawData) = Some magic"
    using uint32_of_4 [OF len] by auto
  have "magic \<noteq> CHUNK_MAGIC"
    using uint32_is_magic [OF len] m assms(2) by auto
  then show ?thesis using assms(1) m by (simp add: parseHeader_def slice_in_range)
qed

text \<open>
  C10. \<open>DecodeChunk\<close> is total: for every input string it returns a chunk or an error
  and no slice expression or big-endian read goes out of range. When the text does not
  decode the error is "decode failed"; when fewer than 28 bytes were decoded it is
  "chunk too small"; when at least 28 bytes were decoded and the first four are not
  \<open>44 4E 53 43\<close> it is "invalid magic", whatever the other bytes are.
\<close>

theorem DecodeChunk_total:
  "(\<exists>r. DecodeChunk lib cfg encoded = Some r)
   \<and> (decodeText lib cfg encoded = None \<longrightarrow> DecodeChunk lib cfg encoded = Some (Inl DecodeFailed))
   \<and> (\<forall>rawData. decodeText lib cfg encoded = Some rawData \<longrightarrow> length rawData < METADATA_OVERHEAD \<longrightarrow>
         DecodeChunk lib cfg encoded = Some (Inl (ChunkTooSmall (length rawData))))
   \<and> (\<forall>rawData. decodeText lib cfg encoded = Some rawData \<longrightarrow> METADATA_OVERHEAD \<le> length rawData \<longrightarrow>
         take 4 rawData \<noteq> [0x44, 0x4E, 0x53, 0x43] \<longrightarrow>
         (\<exists>magic. magic \<noteq> CHUNK_MAGIC
            \<and> DecodeChunk lib cfg encoded = Some (Inl (InvalidMagic magic))))"
proof (intro conjI allI impI)
  show "\<exists>r. DecodeChunk lib cfg encoded = Some r"
  proof (cases "decodeText lib cfg encoded")
    case None
    then show ?thesis by (simp add: DecodeChunk_def)
  next
    case (Some rawData)
    then show ?thesis
      using parseHeader_returns [of rawData encoded]
      by (simp add: DecodeChunk_def METADATA_OVERHEAD_def)
  qed
next
  assume "decodeText lib cfg encoded = None"
  then show "DecodeChunk lib cfg encoded = Some (Inl DecodeFailed)"
    by (simp add: DecodeChunk_def)
next
  fix rawData
  assume "decodeText lib cfg encoded = Some rawData" and "length rawData < METADATA_OVERHEAD"
  then show "DecodeChunk lib cfg encoded = Some (Inl (ChunkTooSmall (length rawData)))"
    by (simp add: DecodeChunk_def)
next
  fix rawData
  assume "decodeText lib cfg encoded = Some rawData" and "METADATA_OVERHEAD \<le> length rawData"
    and "take 4 rawData \<noteq> [0x44, 0x4E, 0x53, 0x43]"
  then show "\<exists>magic. magic \<noteq> CHUNK_MAGIC
            \<and> DecodeChunk lib cfg encoded = Some (Inl (InvalidMagic magic))"
    using parseHeader_bad_magic [of rawData encoded]
    by (simp add: DecodeChunk_def METADATA_OVERHEAD_def)
qed

theorem DecodeChunk_total_witness:
  "DecodeChunk reference_lib hex_config ''zz'' = Some (Inl DecodeFailed)
   \<and> DecodeChunk reference_lib hex_config ''444e5343'' = Some (Inl (ChunkTooSmall 4))
   \<and> (\<exists>magic. magic \<noteq> CHUNK_MAGIC \<and>
        DecodeChunk reference_lib hex_config
          ''00000000000000000000000000000000000000000000000000000000''
          = Some (Inl (InvalidMagic magic)))"
proof -
  have enc: "Encoding hex_config = ENCODE_HEX"
    by (simp add: hex_config_def NewChunker_def Let_def ENCODE_HEX_def)
  have d1: "decodeText reference_lib hex_config ''zz'' = None"
    by (simp add: decodeText_def enc reference_lib_def fromHexChar_def)
  have d2: "decodeText reference_lib hex_config ''444e5343'' = Some [0x44, 0x4E, 0x53, 0x43]"
    by (simp add: decodeText_def enc reference_lib_def fromHexChar_def)
  have d3: "decodeText reference_lib hex_config
      ''00000000000000000000000000000000000000000000000000000000'' = Some (replicate 28 0)"
    by (simp add: decodeText_def enc reference_lib_def fromHexChar_def numeral_eq_Suc)
  have t: "take 4 (replicate 28 (0 :: byte)) \<noteq> [0x44, 0x4E, 0x53, 0x43]"
  proof -
    have "replicate 4 (0 :: byte) = [0, 0, 0, 0]" by (simp add: numeral_eq_Suc)
    then show ?thesis by simp
  qed
  have c1: "DecodeChunk reference_lib hex_config ''zz'' = Some (Inl DecodeFailed)"
    using DecodeChunk_total [of reference_lib hex_config "''zz''"] d1 by blast
  have c2: "DecodeChunk reference_lib hex_config ''444e5343'' = Some (Inl (ChunkTooSmall 4))"
    using DecodeChunk_total [of reference_lib hex_config "''444e5343''"] d2
    by (simp add: METADATA_OVERHEAD_def)
  have "METADATA_OVERHEAD \<le> length (replicate 28 (0 :: byte))"
    by (simp add: METADATA_OVERHEAD_def)
  then have c3: "\<exists>magic. magic \<noteq> CHUNK_MAGIC \<and>
        DecodeChunk reference_lib hex_config
          ''00000000000000000000000000000000000000000000000000000000''
          = Some (Inl (InvalidMagic magic))"
    using DecodeChunk_total [of reference_lib hex_config
        "''00000000000000000000000000000000000000000000000000000000''"] d3 t
    by blast
  show ?thesis using c1 c2 c3 by blast
qed

end
